theory Spec2Isabelle
  imports Main "HOL-Library.Word"
begin

unbundle bit_operations_syntax

section \<open>Data model of the bus (src/src/Bus.cpp)\<close>

type_synonym u8 = "8 word"
type_synonym u16 = "16 word"

text \<open>
  Modelled from the spec: the header Bus.h, which declares the fields of \<open>Bus\<close> and the
  struct \<open>Zapper\<close>, is not part of the sources. The spec (data model) gives \<open>strobe\<close> as a
  bool, two 8-bit shift registers, an \<open>IRQ_line\<close> bitmask (returned by \<open>get_irq\<close> as a
  \<open>uint8_t\<close>), a \<open>zapper_connected\<close> flag and a \<open>Zapper\<close> value with \<open>x\<close>, \<open>y\<close>,
  \<open>trigger\<close> and \<open>light_sensed\<close>. \<open>NMI\<close> is the pending-NMI flag that \<open>soft_reset\<close> clears.
\<close>

record Zapper =
  x :: int
  y :: int
  trigger :: bool
  light_sensed :: bool

record Bus =
  strobe :: bool
  shift_register_controller1 :: u8
  shift_register_controller2 :: u8
  IRQ_line :: u8
  zapper_connected :: bool
  zapper :: Zapper
  NMI :: bool

text \<open>
  The PPU, the APU and the cartridge are external collaborators that the bus calls through
  shared pointers. Each of them holds a pointer back to the bus, so a call may change the
  bus as well as the collaborator's own state. The machine is therefore the pair of the bus
  and an opaque state \<open>'w\<close> of everything else, and each collaborator method is an arbitrary
  function on the machine.
\<close>

type_synonym 'w machine = "Bus \<times> 'w"

record 'w collaborators =
  ppu_cpu_reads :: "u16 \<Rightarrow> 'w machine \<Rightarrow> u8 \<times> 'w machine"
  ppu_cpu_writes :: "u16 \<Rightarrow> u8 \<Rightarrow> 'w machine \<Rightarrow> 'w machine"
  apu_cpu_reads :: "u16 \<Rightarrow> 'w machine \<Rightarrow> u8 \<times> 'w machine"
  apu_cpu_writes :: "u16 \<Rightarrow> u8 \<Rightarrow> 'w machine \<Rightarrow> 'w machine"
  cart_cpu_reads :: "u16 \<Rightarrow> 'w machine \<Rightarrow> u8 \<times> 'w machine"
  cart_cpu_writes :: "u16 \<Rightarrow> u8 \<Rightarrow> 'w machine \<Rightarrow> 'w machine"
  ppu_check_target_hit :: "int \<Rightarrow> int \<Rightarrow> 'w machine \<Rightarrow> 'w machine"

section \<open>Bus operations\<close>

text \<open>
  \<open>Bus::cpu_reads\<close>. The local \<open>data\<close> starts as \<open>0x00\<close>; the branches follow the
  source's \<open>if\<close> chain in its order. In the last branch of port 2 the source tests
  \<open>zapper_connected\<close> again after the shift; the test is kept.
\<close>

definition cpu_reads :: "'w collaborators \<Rightarrow> u16 \<Rightarrow> 'w machine \<Rightarrow> u8 \<times> 'w machine" where
  "cpu_reads env address m =
     (let b = fst m; w = snd m in
      if address \<ge> 0x2000 \<and> address < 0x4000 then
        ppu_cpu_reads env (address AND 0x7) m
      else if address \<ge> 0x4000 \<and> address < 0x4018 then
        (if address = 0x4016 then
           (if strobe b then
              ((shift_register_controller1 b AND 1) OR 0x40, m)
            else
              (let data = shift_register_controller1 b AND 1;
                   b1 = b\<lparr>shift_register_controller1 :=
                            drop_bit 1 (shift_register_controller1 b)\<rparr>
               in (data OR 0x40, (b1, w))))
         else if address = 0x4017 then
           (if zapper_connected b then
              (shift_register_controller2 b OR 0x40,
               (b\<lparr>zapper := (zapper b)\<lparr>light_sensed := True\<rparr>\<rparr>, w))
            else if strobe b then
              ((shift_register_controller2 b AND 1) OR 0x40, m)
            else
              (let data = shift_register_controller2 b AND 1;
                   b1 = b\<lparr>shift_register_controller2 :=
                            drop_bit 1 (shift_register_controller2 b)\<rparr>;
                   b2 = (if zapper_connected b1 \<and> data = 0x00
                         then b1\<lparr>zapper := (zapper b1)\<lparr>trigger := True\<rparr>\<rparr>
                         else b1)
               in (data OR 0x40, (b2, w))))
         else apu_cpu_reads env address m)
      else if address \<ge> 0x4020 \<and> address \<le> 0xFFFF then
        cart_cpu_reads env address m
      else (0x00, m))"

text \<open>
  \<open>Bus::cpu_writes\<close>. The global \<open>controller_state\<close> (a \<open>uint16_t\<close> of main.cpp that the
  touch handler updates) is read when the write happens; it is the first argument after
  the collaborators.
\<close>

definition cpu_writes ::
    "'w collaborators \<Rightarrow> u16 \<Rightarrow> u16 \<Rightarrow> u8 \<Rightarrow> 'w machine \<Rightarrow> 'w machine" where
  "cpu_writes env controller_state address val m =
     (let b = fst m; w = snd m in
      if address \<ge> 0x2000 \<and> address < 0x4000 then
        ppu_cpu_writes env (address AND 0x7) val m
      else if address \<ge> 0x4000 \<and> address < 0x4018 then
        (if address = 0x4016 then
           (let b1 = b\<lparr>strobe := (val AND 1 \<noteq> 0)\<rparr> in
            if strobe b1 then
              (let b2 = b1\<lparr>shift_register_controller1 := ucast (controller_state AND 0xFF)\<rparr>;
                   b3 = (if \<not> zapper_connected b2
                         then b2\<lparr>shift_register_controller2 :=
                                    ucast (drop_bit 8 controller_state AND 0xFF)\<rparr>
                         else b2)
               in (b3, w))
            else (b1, w))
         else apu_cpu_writes env address val m)
      else if address \<ge> 0x4020 \<and> address \<le> 0xFFFF then
        cart_cpu_writes env address val m
      else m)"

text \<open>\<open>Bus::soft_reset\<close>.\<close>

definition soft_reset :: "Bus \<Rightarrow> Bus" where
  "soft_reset b =
     b\<lparr>NMI := False, shift_register_controller2 := 0x0000, shift_register_controller1 := 0x0000\<rparr>"

text \<open>
  \<open>Bus::update_zapper_coordinates\<close>, \<open>Bus::fire_zapper\<close> and \<open>Bus::set_light_sensed\<close>.
  A bool shifted left is promoted to 0 or 1 first (\<open>of_bool\<close>); \<open>~(1 << k)\<close> is taken
  in \<open>int\<close> in the source and the result is truncated to the register's 8 bits, which is
  \<open>NOT (push_bit k 1)\<close> on the 8-bit word.
\<close>

definition update_zapper_coordinates :: "int \<Rightarrow> int \<Rightarrow> Bus \<Rightarrow> Bus" where
  "update_zapper_coordinates gx gy b =
     (let z = (zapper b)\<lparr>x := gx, y := gy, trigger := True\<rparr>;
          r1 = shift_register_controller2 b AND 0xE6;
          r2 = r1 OR push_bit 4 (of_bool (trigger z))
      in b\<lparr>zapper := z, shift_register_controller2 := r2\<rparr>)"

definition fire_zapper :: "'w collaborators \<Rightarrow> 'w machine \<Rightarrow> 'w machine" where
  "fire_zapper env m =
     (let b = fst m; w = snd m;
          z = (zapper b)\<lparr>trigger := False\<rparr>;
          r = (shift_register_controller2 b AND NOT (push_bit 4 1))
                OR push_bit 4 (of_bool (trigger z));
          b1 = b\<lparr>zapper := z, shift_register_controller2 := r\<rparr>
      in ppu_check_target_hit env (x z) (y z) (b1, w))"

definition set_light_sensed :: "bool \<Rightarrow> Bus \<Rightarrow> Bus" where
  "set_light_sensed hit b =
     (let z = (zapper b)\<lparr>light_sensed := (\<not> hit)\<rparr>;
          r = (shift_register_controller2 b AND NOT (push_bit 3 1))
                OR push_bit 3 (of_bool (light_sensed z))
      in b\<lparr>zapper := z, shift_register_controller2 := r\<rparr>)"

text \<open>
  \<open>Bus::assert_irq\<close>, \<open>Bus::ack_irq\<close> and \<open>Bus::get_irq\<close>. The argument is the integer
  value of the \<open>IRQ\<close> enumerator.
\<close>

definition assert_irq :: "u8 \<Rightarrow> Bus \<Rightarrow> Bus" where
  "assert_irq irq b = b\<lparr>IRQ_line := IRQ_line b OR irq\<rparr>"

definition ack_irq :: "u8 \<Rightarrow> Bus \<Rightarrow> Bus" where
  "ack_irq irq b = b\<lparr>IRQ_line := IRQ_line b AND NOT irq\<rparr>"

definition get_irq :: "Bus \<Rightarrow> u8" where
  "get_irq b = IRQ_line b"

section \<open>Sequences of bus accesses\<close>

text \<open>\<open>n\<close> successive calls of \<open>cpu_reads\<close> at one address: the bytes read, in order, and
  the machine after the last call.\<close>

fun cpu_reads_seq ::
    "'w collaborators \<Rightarrow> u16 \<Rightarrow> nat \<Rightarrow> 'w machine \<Rightarrow> u8 list \<times> 'w machine" where
  "cpu_reads_seq env address 0 m = ([], m)"
| "cpu_reads_seq env address (Suc n) m =
     (let (d, m1) = cpu_reads env address m;
          (ds, m2) = cpu_reads_seq env address n m1
      in (d # ds, m2))"

text \<open>
  Modelled from the spec: the enum \<open>IRQ\<close> is declared in Bus.h, which is not part of the
  sources. The spec gives \<open>IRQ_line\<close> one bit per interrupt source, so the enumerator of the
  source with bit index \<open>k\<close> is \<open>1 << k\<close>.
\<close>

definition irq_source :: "nat \<Rightarrow> u8" where
  "irq_source k = push_bit k 1"

text \<open>A history of assertions and acknowledgements, applied to the bus from left to right,
  and the sources that such a history leaves asserted and not yet acknowledged.\<close>

datatype irq_event = Assert nat | Ack nat

fun event_source :: "irq_event \<Rightarrow> nat" where
  "event_source (Assert k) = k"
| "event_source (Ack k) = k"

fun irq_step :: "irq_event \<Rightarrow> Bus \<Rightarrow> Bus" where
  "irq_step (Assert k) b = assert_irq (irq_source k) b"
| "irq_step (Ack k) b = ack_irq (irq_source k) b"

fun outstanding_step :: "irq_event \<Rightarrow> nat set \<Rightarrow> nat set" where
  "outstanding_step (Assert k) S = insert k S"
| "outstanding_step (Ack k) S = S - {k}"

definition irq_run :: "irq_event list \<Rightarrow> Bus \<Rightarrow> Bus" where
  "irq_run evs b = fold irq_step evs b"

definition outstanding :: "irq_event list \<Rightarrow> nat set" where
  "outstanding evs = fold outstanding_step evs {}"

section \<open>The address ranges of the spec\<close>

text \<open>The five destinations of a CPU access and the address ranges that section 4.1 of the
  spec gives them; \<open>Unmapped\<close> is written out as the two gaps the other ranges leave.\<close>

datatype handler = To_PPU | To_Port | To_APU | To_Cartridge | Unmapped

fun spec_range :: "handler \<Rightarrow> u16 \<Rightarrow> bool" where
  "spec_range To_PPU a = (0x2000 \<le> a \<and> a < 0x4000)"
| "spec_range To_Port a = (a = 0x4016 \<or> a = 0x4017)"
| "spec_range To_APU a = (0x4000 \<le> a \<and> a < 0x4018 \<and> a \<noteq> 0x4016 \<and> a \<noteq> 0x4017)"
| "spec_range To_Cartridge a = (0x4020 \<le> a \<and> a \<le> 0xFFFF)"
| "spec_range Unmapped a = (a < 0x2000 \<or> (0x4018 \<le> a \<and> a < 0x4020))"

section \<open>Collaborators that record their calls\<close>

text \<open>A concrete set of collaborators for examples: the state of the outside world is the
  list of calls received so far, each method appends its own call, leaves the bus alone,
  and a read answers with a byte that tells the three devices apart.\<close>

datatype call =
    PPU_cpu_reads u16 | PPU_cpu_writes u16 u8
  | APU_cpu_reads u16 | APU_cpu_writes u16 u8
  | Cart_cpu_reads u16 | Cart_cpu_writes u16 u8
  | PPU_check_target_hit int int

definition recording :: "call list collaborators" where
  "recording =
     \<lparr>ppu_cpu_reads = (\<lambda>a m. (0x11, (fst m, snd m @ [PPU_cpu_reads a]))),
      ppu_cpu_writes = (\<lambda>a v m. (fst m, snd m @ [PPU_cpu_writes a v])),
      apu_cpu_reads = (\<lambda>a m. (0x22, (fst m, snd m @ [APU_cpu_reads a]))),
      apu_cpu_writes = (\<lambda>a v m. (fst m, snd m @ [APU_cpu_writes a v])),
      cart_cpu_reads = (\<lambda>a m. (0x33, (fst m, snd m @ [Cart_cpu_reads a]))),
      cart_cpu_writes = (\<lambda>a v m. (fst m, snd m @ [Cart_cpu_writes a v])),
      ppu_check_target_hit = (\<lambda>gx gy m. (fst m, snd m @ [PPU_check_target_hit gx gy]))\<rparr>"

definition example_bus :: Bus where
  "example_bus =
     \<lparr>strobe = False, shift_register_controller1 = 0, shift_register_controller2 = 0,
      IRQ_line = 0, zapper_connected = False,
      zapper = \<lparr>x = 0, y = 0, trigger = False, light_sensed = False\<rparr>,
      NMI = False\<rparr>"

section \<open>The audio ring buffer (src/main.cpp)\<close>

text \<open>An \<open>int16_t\<close> sample is its 16-bit pattern (\<open>sint\<close> reads the signed value); the
  callback only moves samples and writes the sample 0.\<close>

type_synonym s16 = "16 word"

definition BUFFER_SIZE :: nat where
  "BUFFER_SIZE = 8192"

text \<open>The globals \<open>audio_buffer\<close>, \<open>write_pos\<close> and \<open>read_pos\<close>.\<close>

record audio_state =
  audio_buffer :: "s16 list"
  write_pos :: u16
  read_pos :: u16

text \<open>
  \<open>std::copy(src + lo, src + hi, dst + at)\<close> and \<open>std::fill(dst, dst + n, v)\<close> on arrays
  as lists. A range that leaves its array is undefined behaviour in the source and \<open>None\<close>
  here.
\<close>

definition std_copy :: "'a list \<Rightarrow> nat \<Rightarrow> nat \<Rightarrow> 'a list \<Rightarrow> nat \<Rightarrow> 'a list option" where
  "std_copy src lo hi dst at =
     (if lo \<le> hi \<and> hi \<le> length src \<and> at + (hi - lo) \<le> length dst
      then Some (take at dst @ take (hi - lo) (drop lo src) @ drop (at + (hi - lo)) dst)
      else None)"

definition std_fill :: "'a list \<Rightarrow> nat \<Rightarrow> 'a \<Rightarrow> 'a list option" where
  "std_fill dst n v =
     (if n \<le> length dst then Some (replicate n v @ drop n dst) else None)"

text \<open>
  \<open>audio_callback\<close>. \<open>stream\<close> is the device's buffer seen as 16-bit samples (the
  \<open>reinterpret_cast\<close> of the source) and \<open>len\<close> its length in bytes, which SDL never passes
  negative: it is a \<open>nat\<close> here, and \<open>len / sizeof(int16_t)\<close> is \<open>len div 2\<close>. The cursors
  are promoted to \<open>int\<close> before the arithmetic, so nothing wraps; the local
  \<open>available_data\<close> is an \<open>int\<close> (a \<open>read_pos\<close> beyond \<open>BUFFER_SIZE\<close> would make it
  negative) and is a definition of its own here. The result is the stream as written and
  the globals after the call.
\<close>

definition available_data :: "audio_state \<Rightarrow> int" where
  "available_data a =
     (if unat (write_pos a) \<ge> unat (read_pos a)
      then int (unat (write_pos a)) - int (unat (read_pos a))
      else (int BUFFER_SIZE - int (unat (read_pos a))) + int (unat (write_pos a)))"

definition audio_callback ::
    "s16 list \<Rightarrow> nat \<Rightarrow> audio_state \<Rightarrow> (s16 list \<times> audio_state) option" where
  "audio_callback stream len a =
     (let samples_needed = len div 2;
          rp = unat (read_pos a)
      in if available_data a \<ge> int samples_needed then
           (let copied =
                  (if rp + samples_needed > BUFFER_SIZE then
                     (let first_chunk_size = BUFFER_SIZE - rp in
                      case std_copy (audio_buffer a) rp BUFFER_SIZE stream 0 of
                        None \<Rightarrow> None
                      | Some out1 \<Rightarrow>
                          std_copy (audio_buffer a) 0 (samples_needed - first_chunk_size)
                            out1 first_chunk_size)
                   else std_copy (audio_buffer a) rp (rp + samples_needed) stream 0)
            in case copied of
                 None \<Rightarrow> None
               | Some out \<Rightarrow>
                   Some (out, a\<lparr>read_pos :=
                                  of_nat ((rp + samples_needed) AND (BUFFER_SIZE - 1))\<rparr>))
         else
           (case std_fill stream samples_needed 0 of
              None \<Rightarrow> None
            | Some out \<Rightarrow> Some (out, a)))"

text \<open>
  Modelled from the spec: the producer of the samples (the APU, which receives
  \<open>audio_buffer\<close>, \<open>BUFFER_SIZE\<close> and the address of \<open>write_pos\<close> through
  \<open>set_audio_buffer\<close>) is not part of the sources. The spec has it write each sample at
  \<open>write_pos\<close> and advance \<open>write_pos\<close> modulo the buffer size.
\<close>

fun produce :: "s16 list \<Rightarrow> audio_state \<Rightarrow> audio_state" where
  "produce [] a = a"
| "produce (v # vs) a =
     produce vs
       (a\<lparr>audio_buffer := (audio_buffer a)[unat (write_pos a) := v],
          write_pos := of_nat ((unat (write_pos a) + 1) mod BUFFER_SIZE)\<rparr>)"

text \<open>A concrete state of the ring buffer for examples: 190 unread samples, the last of
  them two slots before the end of the buffer.\<close>

definition example_audio :: audio_state where
  "example_audio =
     \<lparr>audio_buffer = replicate 8192 0x0101, write_pos = 8190, read_pos = 8000\<rparr>"

section \<open>Reset\<close>

text \<open>
  C10. \<open>soft_reset\<close> zeroes both controller shift registers and clears the pending-NMI
  flag; \<open>strobe\<close>, \<open>IRQ_line\<close>, \<open>zapper_connected\<close> and the whole Zapper value (\<open>x\<close>, \<open>y\<close>,
  \<open>trigger\<close>, \<open>light_sensed\<close>) keep the values they had before the reset.
\<close>

theorem soft_reset_frame:
  "shift_register_controller1 (soft_reset b) = 0
   \<and> shift_register_controller2 (soft_reset b) = 0
   \<and> NMI (soft_reset b) = False
   \<and> strobe (soft_reset b) = strobe b
   \<and> IRQ_line (soft_reset b) = IRQ_line b
   \<and> zapper_connected (soft_reset b) = zapper_connected b
   \<and> x (zapper (soft_reset b)) = x (zapper b)
   \<and> y (zapper (soft_reset b)) = y (zapper b)
   \<and> trigger (zapper (soft_reset b)) = trigger (zapper b)
   \<and> light_sensed (zapper (soft_reset b)) = light_sensed (zapper b)
   \<and> Bus.more (soft_reset b) = Bus.more b"
  by (simp add: soft_reset_def)


section \<open>Word facts used below\<close>

lemma bit0_and1: "(r :: u8) AND 1 = of_bool (bit r 0)"
  by (simp add: and_one_eq bit_0 mod2_eq_if)

lemma low_byte: "(c :: u16) AND 0xFF = take_bit 8 c"
proof -
  have "(0xFF :: u16) = mask 8" by (simp add: mask_eq_exp_minus_1)
  then show ?thesis by (simp add: take_bit_eq_mask)
qed

lemma ucast_low_byte: "ucast ((c :: u16) AND 0xFF) = (ucast c :: u8)"
  by (rule bit_word_eqI) (auto simp add: low_byte bit_simps)

lemma le_ffff: "(a :: u16) \<le> 0xFFFF"
proof -
  have "(0xFFFF :: u16) = - 1" by simp
  then show ?thesis by (simp only: word_n1_ge)
qed

section \<open>Address decoding\<close>

lemma spec_range_unique: "\<exists>!h. spec_range h a"
proof -
  have ex: "\<exists>h. spec_range h a"
  proof (cases "a < 0x2000")
    case True
    then have "spec_range Unmapped a" by simp
    then show ?thesis ..
  next
    case False
    note lo = this
    show ?thesis
    proof (cases "a < 0x4000")
      case True
      with lo have "spec_range To_PPU a" by (simp add: not_less)
      then show ?thesis ..
    next
      case False
      note mid = this
      show ?thesis
      proof (cases "a < 0x4018")
        case True
        with mid have "spec_range To_Port a \<or> spec_range To_APU a"
          by (auto simp add: not_less)
        then show ?thesis by blast
      next
        case False
        note hi = this
        show ?thesis
        proof (cases "a < 0x4020")
          case True
          with hi have "spec_range Unmapped a" by (simp add: not_less)
          then show ?thesis ..
        next
          case False
          then have "spec_range To_Cartridge a"
            using le_ffff [of a] by (simp add: not_less)
          then show ?thesis ..
        qed
      qed
    qed
  qed
  have un: "spec_range h a \<Longrightarrow> spec_range h' a \<Longrightarrow> h = h'" for h h'
    by (cases h; cases h'; simp; unat_arith)
  from ex un show ?thesis by blast
qed

text \<open>
  C1, as stated, fails on writes: the claim has \<open>cpu_writes\<close> decode by the same ranges as
  \<open>cpu_reads\<close>, in which \<open>0x4017\<close> belongs to the controller and light-gun protocol and not
  to the APU. In the source only \<open>0x4016\<close> is a controller write; a write to \<open>0x4017\<close>
  takes the \<open>else\<close> branch and is forwarded to the APU, while a read of \<open>0x4017\<close> calls no
  collaborator.
\<close>

theorem write_4017_counterexample:
  "spec_range To_Port 0x4017 \<and> \<not> spec_range To_APU 0x4017
   \<and> cpu_reads recording 0x4017 (example_bus, []) = (0x40, (example_bus, []))
   \<and> cpu_writes recording 0 0x4017 0xC0 (example_bus, [])
       = (example_bus, [APU_cpu_writes 0x4017 0xC0])"
  by (simp add: cpu_reads_def cpu_writes_def recording_def example_bus_def)

text \<open>
  C1, amended. Every 16-bit address lies in exactly one of the five ranges of section 4.1
  (PPU \<open>[0x2000,0x4000)\<close>; ports \<open>0x4016\<close> and \<open>0x4017\<close>; APU, the rest of
  \<open>[0x4000,0x4018)\<close>; cartridge \<open>[0x4020,0xFFFF]\<close>; unmapped, everything else).
  \<open>cpu_reads\<close> forwards a PPU address to the PPU with \<open>a & 0x7\<close>, an APU address to the
  APU and a cartridge address to the cartridge; a port address is served by the bus itself
  (the result does not depend on the collaborators, the outside world is untouched and bit 6
  of the byte is set); an unmapped address reads as \<open>0x00\<close> and changes nothing.
  \<open>cpu_writes\<close> decodes by the same ranges and an unmapped write is a no-op, except that
  only \<open>0x4016\<close> is a controller write (handled by the bus itself): a write to \<open>0x4017\<close>
  is forwarded to the APU like the other addresses of \<open>[0x4000,0x4018)\<close>.
\<close>

theorem bus_decode:
  "(\<exists>!h. spec_range h a)
   \<and> (spec_range To_PPU a \<longrightarrow>
         cpu_reads env a m = ppu_cpu_reads env (a AND 0x7) m
       \<and> cpu_writes env cs a v m = ppu_cpu_writes env (a AND 0x7) v m)
   \<and> (spec_range To_Port a \<longrightarrow>
         cpu_reads env a m = cpu_reads env2 a m
       \<and> snd (snd (cpu_reads env a m)) = snd m
       \<and> bit (fst (cpu_reads env a m)) 6)
   \<and> (spec_range To_APU a \<longrightarrow>
         cpu_reads env a m = apu_cpu_reads env a m
       \<and> cpu_writes env cs a v m = apu_cpu_writes env a v m)
   \<and> (spec_range To_Cartridge a \<longrightarrow>
         cpu_reads env a m = cart_cpu_reads env a m
       \<and> cpu_writes env cs a v m = cart_cpu_writes env a v m)
   \<and> (spec_range Unmapped a \<longrightarrow>
         cpu_reads env a m = (0x00, m) \<and> cpu_writes env cs a v m = m)
   \<and> (a = 0x4016 \<longrightarrow>
         cpu_writes env cs a v m = cpu_writes env2 cs a v m
       \<and> snd (cpu_writes env cs a v m) = snd m)
   \<and> (a = 0x4017 \<longrightarrow> cpu_writes env cs a v m = apu_cpu_writes env a v m)"
proof -
  have ppu: "cpu_reads env a m = ppu_cpu_reads env (a AND 0x7) m
      \<and> cpu_writes env cs a v m = ppu_cpu_writes env (a AND 0x7) v m"
    if "spec_range To_PPU a"
    using that by (simp add: cpu_reads_def cpu_writes_def)
  have port: "cpu_reads env a m = cpu_reads env2 a m
      \<and> snd (snd (cpu_reads env a m)) = snd m
      \<and> bit (fst (cpu_reads env a m)) 6"
    if "spec_range To_Port a"
    using that by (auto simp add: cpu_reads_def Let_def bit_simps)
  have apu: "cpu_reads env a m = apu_cpu_reads env a m
      \<and> cpu_writes env cs a v m = apu_cpu_writes env a v m"
    if h: "spec_range To_APU a"
  proof -
    from h have "0x4000 \<le> a" by simp
    then have "\<not> a < 0x4000" by unat_arith
    with h show ?thesis by (simp add: cpu_reads_def cpu_writes_def)
  qed
  have cart: "cpu_reads env a m = cart_cpu_reads env a m
      \<and> cpu_writes env cs a v m = cart_cpu_writes env a v m"
    if h: "spec_range To_Cartridge a"
  proof -
    from h have "0x4020 \<le> a" by simp
    then have "\<not> a < 0x4000" and "\<not> a < 0x4018" by unat_arith+
    with h show ?thesis by (simp add: cpu_reads_def cpu_writes_def)
  qed
  have unm: "cpu_reads env a m = (0x00, m) \<and> cpu_writes env cs a v m = m"
    if h: "spec_range Unmapped a"
  proof -
    from h have "a < 0x2000 \<or> (0x4018 \<le> a \<and> a < 0x4020)" by simp
    then have "\<not> (0x2000 \<le> a \<and> a < 0x4000)" and "\<not> (0x4000 \<le> a \<and> a < 0x4018)"
      and "\<not> 0x4020 \<le> a"
      by unat_arith+
    note gaps = this
    show ?thesis by (simp add: cpu_reads_def cpu_writes_def gaps)
  qed
  have w16: "cpu_writes env cs a v m = cpu_writes env2 cs a v m
      \<and> snd (cpu_writes env cs a v m) = snd m"
    if "a = 0x4016"
    using that by (simp add: cpu_writes_def Let_def)
  have w17: "cpu_writes env cs a v m = apu_cpu_writes env a v m" if "a = 0x4017"
    using that by (simp add: cpu_writes_def)
  from spec_range_unique ppu port apu cart unm w16 w17 show ?thesis by blast
qed

theorem bus_decode_witness:
  "spec_range To_PPU 0x3FFD
   \<and> cpu_reads recording 0x3FFD (example_bus, []) = (0x11, (example_bus, [PPU_cpu_reads 5]))
   \<and> cpu_writes recording 0 0x3FFD 0x80 (example_bus, [])
       = (example_bus, [PPU_cpu_writes 5 0x80])
   \<and> spec_range To_APU 0x4015
   \<and> cpu_reads recording 0x4015 (example_bus, [])
       = (0x22, (example_bus, [APU_cpu_reads 0x4015]))
   \<and> spec_range To_Cartridge 0x8000
   \<and> cpu_reads recording 0x8000 (example_bus, [])
       = (0x33, (example_bus, [Cart_cpu_reads 0x8000]))
   \<and> spec_range Unmapped 0x4018
   \<and> cpu_reads recording 0x4018 (example_bus, []) = (0x00, (example_bus, []))
   \<and> spec_range Unmapped 0x0000
   \<and> cpu_writes recording 0 0x0000 0x80 (example_bus, []) = (example_bus, [])
   \<and> spec_range To_Port 0x4016
   \<and> snd (snd (cpu_reads recording 0x4016 (example_bus, []))) = []
   \<and> snd (cpu_writes recording 0 0x4016 0x80 (example_bus, [])) = []
   \<and> cpu_writes recording 0 0x4017 0x80 (example_bus, [])
       = (example_bus, [APU_cpu_writes 0x4017 0x80])"
  using bus_decode [of "0x3FFD" recording "(example_bus, [])" 0 "0x80" recording]
    bus_decode [of "0x4015" recording "(example_bus, [])" 0 "0x80" recording]
    bus_decode [of "0x8000" recording "(example_bus, [])" 0 "0x80" recording]
    bus_decode [of "0x4018" recording "(example_bus, [])" 0 "0x80" recording]
    bus_decode [of "0x0000" recording "(example_bus, [])" 0 "0x80" recording]
    bus_decode [of "0x4016" recording "(example_bus, [])" 0 "0x80" recording]
    bus_decode [of "0x4017" recording "(example_bus, [])" 0 "0x80" recording]
  by (simp add: recording_def)

section \<open>The controller ports\<close>

lemma write_4016:
  "cpu_writes env cs 0x4016 v (b, w) =
     (if bit v 0
      then b\<lparr>strobe := True,
             shift_register_controller1 := ucast cs,
             shift_register_controller2 :=
               (if zapper_connected b then shift_register_controller2 b
                else ucast (drop_bit 8 cs))\<rparr>
      else b\<lparr>strobe := False\<rparr>, w)"
proof -
  have m1: "ucast (cs AND 0xFF) = (ucast cs :: u8)"
    by (simp add: ucast_low_byte)
  have m2: "ucast (drop_bit 8 cs AND 0xFF) = (ucast (drop_bit 8 cs) :: u8)"
    by (simp add: ucast_low_byte)
  have v: "(v AND 1 \<noteq> 0) = bit v 0"
    by (simp add: bit0_and1)
  show ?thesis
    by (simp add: cpu_writes_def Let_def m1 m2 v)
qed

lemma read_4016_strobe:
  "strobe b \<Longrightarrow>
   cpu_reads env 0x4016 (b, w) =
     (of_bool (bit (shift_register_controller1 b) 0) OR 0x40, (b, w))"
  by (simp add: cpu_reads_def bit0_and1)

lemma read_4017_strobe:
  "strobe b \<Longrightarrow> \<not> zapper_connected b \<Longrightarrow>
   cpu_reads env 0x4017 (b, w) =
     (of_bool (bit (shift_register_controller2 b) 0) OR 0x40, (b, w))"
  by (simp add: cpu_reads_def bit0_and1)

lemma read_4016_shift:
  "\<not> strobe b \<Longrightarrow>
   cpu_reads env 0x4016 (b, w) =
     (of_bool (bit (shift_register_controller1 b) 0) OR 0x40,
      (b\<lparr>shift_register_controller1 :=
           drop_bit (Suc 0) (shift_register_controller1 b)\<rparr>, w))"
  by (simp add: cpu_reads_def bit0_and1 Let_def)

lemma reads_seq_fixed:
  "cpu_reads env a m = (d, m) \<Longrightarrow> cpu_reads_seq env a n m = (replicate n d, m)"
  by (induction n) simp_all

lemma reads_seq_4016_shift:
  "\<not> strobe b \<Longrightarrow>
   cpu_reads_seq env 0x4016 n (b, w) =
     (map (\<lambda>i. of_bool (bit (shift_register_controller1 b) i) OR 0x40) [0..<n],
      (b\<lparr>shift_register_controller1 := drop_bit n (shift_register_controller1 b)\<rparr>, w))"
proof (induction n arbitrary: b)
  case 0
  then show ?case by simp
next
  case (Suc n)
  let ?b1 = "b\<lparr>shift_register_controller1 :=
                 drop_bit (Suc 0) (shift_register_controller1 b)\<rparr>"
  have s: "\<not> strobe ?b1" using Suc.prems by simp
  have up: "[0..<Suc n] = 0 # map Suc [0..<n]"
    by (simp add: upt_conv_Cons map_Suc_upt del: upt_Suc)
  show ?case
    using Suc.prems
    by (simp add: read_4016_shift Suc.IH [OF s] up bit_simps comp_def drop_bit_drop_bit
             del: upt_Suc)
qed

text \<open>
  C2. With no zapper connected, after \<open>cpu_writes(0x4016, 1)\<close> and \<open>cpu_writes(0x4016, 0)\<close>
  under the controller bitmask \<open>B\<close>, the reads of \<open>0x4016\<close> return, in order, the bits
  0 to 7 of \<open>B & 0xFF\<close>, each with bit 6 set; every later read (the 9th and on) returns
  \<open>0x40\<close>, low bits zero and bit 6 set. The statement is for any number \<open>n\<close> of reads; the
  witness has the 9 reads for \<open>B = 0b00000001\<close>, the first \<open>0x41\<close> and the second \<open>0x40\<close>.
\<close>

theorem controller_serial_read:
  assumes "\<not> zapper_connected b"
  shows "fst (cpu_reads_seq env 0x4016 n
               (cpu_writes env B 0x4016 0 (cpu_writes env B 0x4016 1 (b, w))))
         = map (\<lambda>i. of_bool (i < 8 \<and> bit (B AND 0xFF) i) OR 0x40) [0..<n]"
proof -
  have "\<And>i. bit (ucast B :: u8) i = (i < 8 \<and> bit (B AND 0xFF) i)"
    by (auto simp add: low_byte bit_simps)
  then show ?thesis
    by (simp add: write_4016 reads_seq_4016_shift)
qed

theorem controller_serial_read_witness:
  "\<not> zapper_connected example_bus
   \<and> fst (cpu_reads_seq recording 0x4016 9
        (cpu_writes recording 0b00000001 0x4016 0
           (cpu_writes recording 0b00000001 0x4016 1 (example_bus, []))))
     = [0x41, 0x40, 0x40, 0x40, 0x40, 0x40, 0x40, 0x40, 0x40]
   \<and> fst (cpu_reads_seq recording 0x4016 9
        (cpu_writes recording 0xA5 0x4016 0
           (cpu_writes recording 0xA5 0x4016 1 (example_bus, []))))
     = [0x41, 0x40, 0x41, 0x40, 0x40, 0x41, 0x40, 0x41, 0x40]"
proof -
  have z: "\<not> zapper_connected example_bus" by (simp add: example_bus_def)
  have nine: "[0..<9] = [0,1,2,3,4,5,6,7,8]" by (simp add: upt_rec)
  show ?thesis
    using z controller_serial_read [OF z, of recording 9 "0b00000001" "[]"]
      controller_serial_read [OF z, of recording 9 "0xA5" "[]"]
    by (simp add: nine bit_simps)
qed

text \<open>
  C3, as stated, fails: the claim latches only on the rising transition and has a
  strobe-active write with \<open>strobe\<close> already 1 not re-latch. The source tests the new
  value of \<open>strobe\<close> only, so such a write reloads both registers: here \<open>strobe\<close> is 1 and
  both registers are 0 before a write of 1 under the bitmask \<open>0x0201\<close>, and they are
  \<open>0x01\<close> and \<open>0x02\<close> after it.
\<close>

theorem relatch_counterexample:
  "strobe (example_bus\<lparr>strobe := True\<rparr>)
   \<and> shift_register_controller1 (example_bus\<lparr>strobe := True\<rparr>) = 0x00
   \<and> shift_register_controller2 (example_bus\<lparr>strobe := True\<rparr>) = 0x00
   \<and> shift_register_controller1
        (fst (cpu_writes recording 0x0201 0x4016 0x01 (example_bus\<lparr>strobe := True\<rparr>, [])))
       = 0x01
   \<and> shift_register_controller2
        (fst (cpu_writes recording 0x0201 0x4016 0x01 (example_bus\<lparr>strobe := True\<rparr>, [])))
       = 0x02"
  by (simp add: cpu_writes_def example_bus_def)

text \<open>
  C3, amended. \<open>cpu_writes(0x4016, v)\<close> sets \<open>strobe\<close> to \<open>v & 1\<close> and, whenever
  \<open>v & 1\<close> is 1, whatever \<open>strobe\<close> was before, latches the controller bitmask: its low
  byte into port 1's register and its high byte into port 2's register, except that with
  \<open>zapper_connected\<close> port 2's register is not reloaded. A write with \<open>v & 1 = 0\<close> leaves
  both registers as they were.
\<close>

theorem strobe_write_latches:
  "strobe (fst (cpu_writes env cs 0x4016 v (b, w))) = bit v 0
   \<and> shift_register_controller1 (fst (cpu_writes env cs 0x4016 v (b, w)))
       = (if bit v 0 then ucast cs else shift_register_controller1 b)
   \<and> shift_register_controller2 (fst (cpu_writes env cs 0x4016 v (b, w)))
       = (if bit v 0 \<and> \<not> zapper_connected b then ucast (drop_bit 8 cs)
          else shift_register_controller2 b)"
  by (simp add: write_4016)

theorem strobe_write_latches_witness:
  "strobe (fst (cpu_writes recording 0x0201 0x4016 0x01 (example_bus, [])))
   \<and> shift_register_controller1
        (fst (cpu_writes recording 0x0201 0x4016 0x01 (example_bus, []))) = 0x01
   \<and> shift_register_controller2
        (fst (cpu_writes recording 0x0201 0x4016 0x01 (example_bus, []))) = 0x02
   \<and> shift_register_controller2
        (fst (cpu_writes recording 0x0201 0x4016 0x01
               (example_bus\<lparr>zapper_connected := True\<rparr>, []))) = 0x00
   \<and> \<not> strobe (fst (cpu_writes recording 0x0201 0x4016 0x02 (example_bus, [])))
   \<and> shift_register_controller1
        (fst (cpu_writes recording 0x0201 0x4016 0x02 (example_bus, []))) = 0x00"
  using strobe_write_latches [of recording "0x0201" "0x01" example_bus "[]"]
    strobe_write_latches [of recording "0x0201" "0x01"
      "example_bus\<lparr>zapper_connected := True\<rparr>" "[]"]
    strobe_write_latches [of recording "0x0201" "0x02" example_bus "[]"]
  by (simp add: example_bus_def)

text \<open>
  C9. While \<open>strobe\<close> is 1 and no zapper is connected, every read of \<open>0x4016\<close> and every
  read of \<open>0x4017\<close> returns bit 0 of its shift register with bit 6 set, and leaves the
  machine, the shift register with it, as it was: any number \<open>n\<close> of reads in a row
  returns \<open>n\<close> times that byte and ends in the machine it started from.
\<close>

theorem latched_reads:
  assumes "strobe b" and "\<not> zapper_connected b"
  shows "cpu_reads_seq env 0x4016 n (b, w) =
           (replicate n (of_bool (bit (shift_register_controller1 b) 0) OR 0x40), (b, w))
       \<and> cpu_reads_seq env 0x4017 n (b, w) =
           (replicate n (of_bool (bit (shift_register_controller2 b) 0) OR 0x40), (b, w))"
  using assms by (simp add: reads_seq_fixed read_4016_strobe read_4017_strobe)

theorem latched_reads_witness:
  "strobe (example_bus\<lparr>strobe := True, shift_register_controller1 := 0x05\<rparr>)
   \<and> \<not> zapper_connected (example_bus\<lparr>strobe := True, shift_register_controller1 := 0x05\<rparr>)
   \<and> cpu_reads_seq recording 0x4016 3
        (example_bus\<lparr>strobe := True, shift_register_controller1 := 0x05\<rparr>, [])
       = ([0x41, 0x41, 0x41],
          (example_bus\<lparr>strobe := True, shift_register_controller1 := 0x05\<rparr>, []))
   \<and> cpu_reads_seq recording 0x4017 2
        (example_bus\<lparr>strobe := True, shift_register_controller1 := 0x05\<rparr>, [])
       = ([0x40, 0x40],
          (example_bus\<lparr>strobe := True, shift_register_controller1 := 0x05\<rparr>, []))"
  using latched_reads
      [of "example_bus\<lparr>strobe := True, shift_register_controller1 := 0x05\<rparr>" recording 3 "[]"]
    latched_reads
      [of "example_bus\<lparr>strobe := True, shift_register_controller1 := 0x05\<rparr>" recording 2 "[]"]
  by (simp add: example_bus_def numeral_3_eq_3 numeral_2_eq_2)

section \<open>The light gun\<close>

text \<open>
  C7. With \<open>zapper_connected\<close>, a read of \<open>0x4017\<close> returns the port-2 shift register
  OR'd with \<open>0x40\<close>, whatever \<open>strobe\<close> is; the register is not shifted, no other field
  changes, and \<open>zapper.light_sensed\<close> is true after the read.
\<close>

theorem zapper_read_4017:
  "zapper_connected b \<Longrightarrow>
     cpu_reads env 0x4017 (b, w) =
       (shift_register_controller2 b OR 0x40,
        (b\<lparr>zapper := (zapper b)\<lparr>light_sensed := True\<rparr>\<rparr>, w))
     \<and> shift_register_controller2 (fst (snd (cpu_reads env 0x4017 (b, w))))
         = shift_register_controller2 b
     \<and> light_sensed (zapper (fst (snd (cpu_reads env 0x4017 (b, w)))))
     \<and> bit (fst (cpu_reads env 0x4017 (b, w))) 6"
  by (simp add: cpu_reads_def bit_simps)

theorem zapper_read_4017_witness:
  "zapper_connected (example_bus\<lparr>zapper_connected := True, shift_register_controller2 := 0x18\<rparr>)
   \<and> cpu_reads recording 0x4017
        (example_bus\<lparr>zapper_connected := True, shift_register_controller2 := 0x18\<rparr>, [])
     = (0x58, (example_bus\<lparr>zapper_connected := True, shift_register_controller2 := 0x18,
                 zapper := \<lparr>x = 0, y = 0, trigger = False, light_sensed = True\<rparr>\<rparr>, []))"
  using zapper_read_4017
    [of "example_bus\<lparr>zapper_connected := True, shift_register_controller2 := 0x18\<rparr>"
        recording "[]"]
  by (simp add: example_bus_def)

text \<open>
  C8. \<open>fire_zapper\<close> calls the PPU hit test once, with the stored coordinates, on a machine
  in which \<open>zapper.trigger\<close> is already 0 and bit 4 of the port-2 register is already
  clear. After \<open>update_zapper_coordinates(gx, gy)\<close> the stored coordinates are \<open>(gx, gy)\<close>,
  so the two calls in a row make exactly one hit test, with \<open>(gx, gy)\<close>: the recording
  collaborators receive that call and no other. \<open>set_light_sensed(hit)\<close> stores \<open>!hit\<close> in
  \<open>zapper.light_sensed\<close> and in bit 3 of the port-2 register, whose other bits it keeps.
\<close>

theorem zapper_fire_and_sense:
  "fire_zapper env (b, w) =
     ppu_check_target_hit env (x (zapper b)) (y (zapper b))
       (b\<lparr>zapper := (zapper b)\<lparr>trigger := False\<rparr>,
          shift_register_controller2 := shift_register_controller2 b AND NOT 16\<rparr>, w)
   \<and> \<not> bit (shift_register_controller2 b AND NOT 16) 4
   \<and> x (zapper (update_zapper_coordinates gx gy b)) = gx
   \<and> y (zapper (update_zapper_coordinates gx gy b)) = gy
   \<and> snd (fire_zapper recording (update_zapper_coordinates gx gy b, calls))
       = calls @ [PPU_check_target_hit gx gy]
   \<and> light_sensed (zapper (set_light_sensed hit b)) = (\<not> hit)
   \<and> bit (shift_register_controller2 (set_light_sensed hit b)) 3 = (\<not> hit)
   \<and> shift_register_controller2 (set_light_sensed hit b) AND NOT 8
       = shift_register_controller2 b AND NOT 8"
proof -
  have b4: "\<not> bit (r AND NOT 16 :: u8) 4" for r
    by (simp add: bit_simps)
  have b3: "bit ((r AND NOT 8) OR push_bit 3 (of_bool (\<not> hit)) :: u8) 3 = (\<not> hit)" for r
    by (cases hit) (simp_all add: bit_simps)
  have keep: "((r AND NOT 8) OR push_bit 3 (of_bool (\<not> hit))) AND NOT 8 = (r AND NOT 8 :: u8)"
    for r
    by (cases hit) (simp_all add: bit_simps bit_eq_iff, auto)
  show ?thesis
    using b3 b4 keep
    by (simp add: fire_zapper_def update_zapper_coordinates_def set_light_sensed_def
        recording_def Let_def)
qed

section \<open>Interrupt requests\<close>

lemma bit_irq_source: "bit (irq_source k) j \<longleftrightarrow> j = k \<and> k < 8"
  by (auto simp add: irq_source_def bit_simps)

lemma irq_step_bits:
  assumes "event_source e < 8"
    and "\<And>j. bit (IRQ_line b) j \<longleftrightarrow> j \<in> S"
  shows "bit (IRQ_line (irq_step e b)) j \<longleftrightarrow> j \<in> outstanding_step e S"
proof (cases e)
  case (Assert k)
  with assms show ?thesis
    by (auto simp add: assert_irq_def bit_simps bit_irq_source)
next
  case (Ack k)
  have "j \<in> S \<Longrightarrow> j < 8"
    using assms(2) [of j] bit_imp_le_length [of "IRQ_line b" j] by simp
  with Ack assms show ?thesis
    by (auto simp add: ack_irq_def bit_simps bit_irq_source)
qed

lemma irq_run_bits:
  assumes "\<forall>e \<in> set evs. event_source e < 8"
    and "\<And>j. bit (IRQ_line b) j \<longleftrightarrow> j \<in> S"
  shows "bit (IRQ_line (fold irq_step evs b)) j \<longleftrightarrow> j \<in> fold outstanding_step evs S"
  using assms
proof (induction evs arbitrary: b S)
  case Nil
  then show ?case by simp
next
  case (Cons e evs)
  have "\<And>i. bit (IRQ_line (irq_step e b)) i \<longleftrightarrow> i \<in> outstanding_step e S"
    using Cons.prems by (intro irq_step_bits) simp_all
  moreover have "\<forall>e \<in> set evs. event_source e < 8"
    using Cons.prems by simp
  ultimately show ?case
    using Cons.IH [of "irq_step e b" "outstanding_step e S"] by simp
qed

text \<open>
  C4. \<open>assert_irq\<close> ORs the source's bit into \<open>IRQ_line\<close>, \<open>ack_irq\<close> ANDs it out and
  \<open>get_irq\<close> returns the bitmask. For two distinct sources (bits \<open>k1\<close> and \<open>k2\<close> of the
  8-bit mask), after both are asserted both bits are set in \<open>get_irq\<close>; after \<open>k1\<close> is then
  acknowledged, the bit of \<open>k2\<close> is still set and the bit of \<open>k1\<close> is clear. Starting from
  an empty \<open>IRQ_line\<close>, after any history of assertions and acknowledgements \<open>get_irq\<close> is
  zero exactly when no source is left asserted without a later acknowledgement.
\<close>

theorem irq_aggregation:
  assumes "k1 < 8" and "k2 < 8" and "k1 \<noteq> k2"
  shows "bit (get_irq (assert_irq (irq_source k2) (assert_irq (irq_source k1) b))) k1
     \<and> bit (get_irq (assert_irq (irq_source k2) (assert_irq (irq_source k1) b))) k2
     \<and> bit (get_irq (ack_irq (irq_source k1)
               (assert_irq (irq_source k2) (assert_irq (irq_source k1) b)))) k2
     \<and> \<not> bit (get_irq (ack_irq (irq_source k1)
               (assert_irq (irq_source k2) (assert_irq (irq_source k1) b)))) k1
     \<and> (IRQ_line b = 0 \<and> (\<forall>e \<in> set evs. event_source e < 8) \<longrightarrow>
          (get_irq (irq_run evs b) = 0 \<longleftrightarrow> outstanding evs = {}))"
proof -
  have two: "bit (get_irq (assert_irq (irq_source k2) (assert_irq (irq_source k1) b))) k1
     \<and> bit (get_irq (assert_irq (irq_source k2) (assert_irq (irq_source k1) b))) k2
     \<and> bit (get_irq (ack_irq (irq_source k1)
               (assert_irq (irq_source k2) (assert_irq (irq_source k1) b)))) k2
     \<and> \<not> bit (get_irq (ack_irq (irq_source k1)
               (assert_irq (irq_source k2) (assert_irq (irq_source k1) b)))) k1"
    using assms
    by (simp add: get_irq_def assert_irq_def ack_irq_def bit_simps bit_irq_source)
  have run: "get_irq (irq_run evs b) = 0 \<longleftrightarrow> outstanding evs = {}"
    if z: "IRQ_line b = 0" and s: "\<forall>e \<in> set evs. event_source e < 8"
  proof -
    have "\<And>j. bit (IRQ_line b) j \<longleftrightarrow> j \<in> {}" using z by simp
    with s have "\<And>j. bit (IRQ_line (fold irq_step evs b)) j
                      \<longleftrightarrow> j \<in> fold outstanding_step evs {}"
      by (rule irq_run_bits)
    moreover have "r = 0 \<longleftrightarrow> (\<forall>j. \<not> bit r j)" for r :: u8
      using bit_imp_le_length [of r] by (auto simp add: bit_eq_iff)
    ultimately show ?thesis
      by (auto simp add: get_irq_def irq_run_def outstanding_def)
  qed
  from two run show ?thesis by blast
qed

theorem irq_aggregation_witness:
  "(0::nat) < 8 \<and> (1::nat) < 8 \<and> (0::nat) \<noteq> 1
   \<and> IRQ_line example_bus = 0
   \<and> get_irq (assert_irq (irq_source 1) (assert_irq (irq_source 0) example_bus)) = 0x03
   \<and> get_irq (ack_irq (irq_source 0)
        (assert_irq (irq_source 1) (assert_irq (irq_source 0) example_bus))) = 0x02
   \<and> bit (get_irq (ack_irq (irq_source 0)
        (assert_irq (irq_source 1) (assert_irq (irq_source 0) example_bus)))) 1
   \<and> get_irq (irq_run [Assert 0, Assert 1, Ack 0] example_bus) \<noteq> 0
   \<and> outstanding [Assert 0, Assert 1, Ack 0] = {1}
   \<and> get_irq (irq_run [Assert 0, Assert 1, Ack 0, Ack 1] example_bus) = 0"
proof -
  have h: "(0::nat) < 8" "(1::nat) < 8" "(0::nat) \<noteq> 1" by simp_all
  have o1: "outstanding [Assert 0, Assert 1, Ack 0] = {1}"
    by (auto simp add: outstanding_def)
  have o2: "outstanding [Assert 0, Assert 1, Ack 0, Ack 1] = {}"
    by (auto simp add: outstanding_def)
  show ?thesis
    using o1 o2 irq_aggregation [OF h, of example_bus "[Assert 0, Assert 1, Ack 0]"]
      irq_aggregation [OF h, of example_bus "[Assert 0, Assert 1, Ack 0, Ack 1]"]
    by (simp add: example_bus_def get_irq_def assert_irq_def ack_irq_def irq_source_def)
qed

section \<open>The audio callback\<close>

text \<open>
  C5. When \<open>available_data\<close> (\<open>write_pos - read_pos\<close> if \<open>write_pos >= read_pos\<close>, else
  \<open>(BUFFER_SIZE - read_pos) + write_pos\<close>) is less than the number of samples requested,
  the callback writes the sample 0 to every one of the requested \<open>len / 2\<close> samples of the
  stream and leaves \<open>read_pos\<close>, with the rest of the globals, unchanged.
\<close>

theorem underrun_silence:
  assumes "available_data a < int (len div 2)"
    and "length stream = len div 2"
  shows "audio_callback stream len a = Some (replicate (len div 2) 0, a)"
  using assms by (simp add: audio_callback_def std_fill_def)

theorem underrun_silence_witness:
  "available_data example_audio = 190
   \<and> available_data example_audio < int (512 div 2)
   \<and> length (replicate 256 (0x7F7F :: s16)) = 512 div 2
   \<and> audio_callback (replicate 256 0x7F7F) 512 example_audio
       = Some (replicate 256 0, example_audio)
   \<and> map_option (read_pos \<circ> snd) (audio_callback (replicate 256 0x7F7F) 512 example_audio)
       = Some 8000"
proof -
  have av: "available_data example_audio = 190"
    by (simp add: available_data_def example_audio_def)
  have r: "read_pos example_audio = 8000" by (simp add: example_audio_def)
  show ?thesis
    using av r underrun_silence [of example_audio 512 "replicate 256 0x7F7F"]
    by simp
qed

lemma and_buffer_mask: "(n :: nat) AND (BUFFER_SIZE - Suc 0) = n mod BUFFER_SIZE"
proof -
  have "n AND mask 13 = n mod 2 ^ 13"
    by (simp only: take_bit_eq_mask [symmetric] take_bit_eq_mod)
  moreover have "mask 13 = (8191 :: nat)"
    by (simp add: mask_eq_exp_minus_1)
  ultimately show ?thesis
    by (simp add: BUFFER_SIZE_def)
qed

lemma unat_cursor: "n < BUFFER_SIZE \<Longrightarrow> unat (of_nat n :: u16) = n"
  by (simp add: BUFFER_SIZE_def unat_of_nat)

lemma ring_index:
  assumes "(p::nat) < S" and "i < S"
  shows "(p + i) mod S = (if p + i < S then p + i else p + i - S)"
proof (cases "p + i < S")
  case True
  then show ?thesis by simp
next
  case False
  with assms have "p + i - S < S" by simp
  then have "(p + i - S) mod S = p + i - S" by simp
  moreover from False have "(p + i) mod S = (p + i - S) mod S"
    by (simp add: le_mod_geq)
  ultimately show ?thesis using False by simp
qed

lemma ring_read:
  assumes len: "length (audio_buffer a) = BUFFER_SIZE"
    and rp: "unat (read_pos a) < BUFFER_SIZE"
    and wp: "unat (write_pos a) < BUFFER_SIZE"
    and av: "int (len div 2) \<le> available_data a"
    and st: "length stream = len div 2"
  shows "audio_callback stream len a =
           Some (map (\<lambda>i. audio_buffer a ! ((unat (read_pos a) + i) mod BUFFER_SIZE))
                   [0..<len div 2],
                 a\<lparr>read_pos := of_nat ((unat (read_pos a) + len div 2) mod BUFFER_SIZE)\<rparr>)"
proof -
  let ?n = "len div 2" and ?p = "unat (read_pos a)" and ?buf = "audio_buffer a"
  let ?ring = "map (\<lambda>i. ?buf ! ((?p + i) mod BUFFER_SIZE)) [0..<?n]"
  have n: "?n < BUFFER_SIZE"
  proof (cases "unat (read_pos a) \<le> unat (write_pos a)")
    case True
    with av have "int ?n \<le> int (unat (write_pos a)) - int (unat (read_pos a))"
      by (simp only: available_data_def if_True)
    with wp show ?thesis by linarith
  next
    case False
    with av have "int ?n \<le> (int BUFFER_SIZE - int (unat (read_pos a))) + int (unat (write_pos a))"
      by (simp only: available_data_def if_False)
    with False show ?thesis by linarith
  qed
  show ?thesis
  proof (cases "?p + ?n > BUFFER_SIZE")
    case True
    let ?k = "BUFFER_SIZE - ?p"
    have c1: "std_copy ?buf ?p BUFFER_SIZE stream 0 = Some (drop ?p ?buf @ drop ?k stream)"
      using True rp len st by (simp add: std_copy_def)
    have c2: "std_copy ?buf 0 (?n - ?k) (drop ?p ?buf @ drop ?k stream) ?k
                = Some (drop ?p ?buf @ take (?n - ?k) ?buf)"
      using True rp n len st by (simp add: std_copy_def)
    have "drop ?p ?buf @ take (?n - ?k) ?buf = ?ring"
    proof (rule nth_equalityI)
      show "length (drop ?p ?buf @ take (?n - ?k) ?buf) = length ?ring"
        using True rp n len by simp
    next
      fix i assume "i < length (drop ?p ?buf @ take (?n - ?k) ?buf)"
      then have i: "i < ?n" using True rp n len by simp
      with n have "i < BUFFER_SIZE" by simp
      from ring_index [OF rp this] i True rp n len
      show "(drop ?p ?buf @ take (?n - ?k) ?buf) ! i = ?ring ! i"
        by (auto simp add: nth_append add.commute)
    qed
    with True c1 c2 av show ?thesis
      by (simp add: audio_callback_def Let_def and_buffer_mask)
  next
    case False
    have c: "std_copy ?buf ?p (?p + ?n) stream 0 = Some (take ?n (drop ?p ?buf))"
      using False len st by (simp add: std_copy_def)
    have "take ?n (drop ?p ?buf) = ?ring"
    proof (rule nth_equalityI)
      show "length (take ?n (drop ?p ?buf)) = length ?ring"
        using False len by simp
    next
      fix i assume "i < length (take ?n (drop ?p ?buf))"
      then have i: "i < ?n" by simp
      with False have "?p + i < BUFFER_SIZE" by simp
      with i False len show "take ?n (drop ?p ?buf) ! i = ?ring ! i"
        by simp
    qed
    with False c av show ?thesis
      by (simp add: audio_callback_def Let_def and_buffer_mask)
  qed
qed

lemma produce_read_pos: "read_pos (produce xs a) = read_pos a"
  by (induction xs arbitrary: a) simp_all

lemma produce_length: "length (audio_buffer (produce xs a)) = length (audio_buffer a)"
  by (induction xs arbitrary: a) simp_all

lemma buffer_size_pos: "0 < BUFFER_SIZE"
  by (simp add: BUFFER_SIZE_def)

lemma unat_next_cursor:
  "unat (of_nat (Suc n mod BUFFER_SIZE) :: u16) = Suc n mod BUFFER_SIZE"
  by (rule unat_cursor) (simp add: buffer_size_pos)

lemma produce_write_pos:
  "unat (write_pos (produce xs a)) = (unat (write_pos a) + length xs) mod BUFFER_SIZE"
  if "unat (write_pos a) < BUFFER_SIZE"
  using that
proof (induction xs arbitrary: a)
  case Nil
  then show ?case by simp
next
  case (Cons v vs)
  let ?a1 = "a\<lparr>audio_buffer := (audio_buffer a)[unat (write_pos a) := v],
               write_pos := of_nat ((unat (write_pos a) + 1) mod BUFFER_SIZE)\<rparr>"
  have w1: "unat (write_pos ?a1) = Suc (unat (write_pos a)) mod BUFFER_SIZE"
    by (simp add: unat_next_cursor)
  then have "unat (write_pos ?a1) < BUFFER_SIZE"
    by (simp add: buffer_size_pos)
  from Cons.IH [OF this] w1
  have "unat (write_pos (produce vs ?a1))
          = (Suc (unat (write_pos a)) mod BUFFER_SIZE + length vs) mod BUFFER_SIZE"
    by simp
  also have "\<dots> = (unat (write_pos a) + length (v # vs)) mod BUFFER_SIZE"
    by (simp add: mod_add_left_eq)
  finally show ?case by simp
qed

lemma produce_frame:
  assumes "unat (write_pos a) < BUFFER_SIZE"
    and "\<forall>j < length xs. q \<noteq> (unat (write_pos a) + j) mod BUFFER_SIZE"
  shows "audio_buffer (produce xs a) ! q = audio_buffer a ! q"
  using assms
proof (induction xs arbitrary: a)
  case Nil
  then show ?case by simp
next
  case (Cons v vs)
  let ?a1 = "a\<lparr>audio_buffer := (audio_buffer a)[unat (write_pos a) := v],
               write_pos := of_nat ((unat (write_pos a) + 1) mod BUFFER_SIZE)\<rparr>"
  have w1: "unat (write_pos ?a1) = Suc (unat (write_pos a)) mod BUFFER_SIZE"
    by (simp add: unat_next_cursor)
  then have lt: "unat (write_pos ?a1) < BUFFER_SIZE"
    by (simp add: buffer_size_pos)
  have "q \<noteq> (unat (write_pos ?a1) + j) mod BUFFER_SIZE" if "j < length vs" for j
  proof -
    from that have "Suc j < length (v # vs)" by simp
    with Cons.prems(2) have "q \<noteq> (unat (write_pos a) + Suc j) mod BUFFER_SIZE" by blast
    then show ?thesis by (simp add: unat_next_cursor mod_add_left_eq)
  qed
  then have "audio_buffer (produce vs ?a1) ! q = audio_buffer ?a1 ! q"
    using lt by (intro Cons.IH) blast+
  moreover from Cons.prems have "q \<noteq> unat (write_pos a)"
    by fastforce
  ultimately show ?case by simp
qed

lemma produce_nth:
  assumes "unat (write_pos a) < BUFFER_SIZE"
    and "length (audio_buffer a) = BUFFER_SIZE"
    and "length xs \<le> BUFFER_SIZE"
    and "i < length xs"
  shows "audio_buffer (produce xs a) ! ((unat (write_pos a) + i) mod BUFFER_SIZE) = xs ! i"
  using assms
proof (induction xs arbitrary: a i)
  case Nil
  then show ?case by simp
next
  case (Cons v vs)
  let ?p = "unat (write_pos a)"
  let ?a1 = "a\<lparr>audio_buffer := (audio_buffer a)[?p := v],
               write_pos := of_nat ((?p + 1) mod BUFFER_SIZE)\<rparr>"
  have w1: "unat (write_pos ?a1) = Suc ?p mod BUFFER_SIZE"
    by (simp add: unat_next_cursor)
  then have lt: "unat (write_pos ?a1) < BUFFER_SIZE"
    by (simp add: buffer_size_pos)
  have len1: "length (audio_buffer ?a1) = BUFFER_SIZE"
    using Cons.prems(2) by simp
  have vs: "length vs \<le> BUFFER_SIZE" "length vs < BUFFER_SIZE"
    using Cons.prems(3) by simp_all
  show ?case
  proof (cases i)
    case 0
    have "?p \<noteq> (unat (write_pos ?a1) + j) mod BUFFER_SIZE" if "j < length vs" for j
    proof -
      from that vs have "Suc j < BUFFER_SIZE" by simp
      from ring_index [OF Cons.prems(1) this]
      have "(?p + Suc j) mod BUFFER_SIZE \<noteq> ?p"
        using \<open>Suc j < BUFFER_SIZE\<close> by (simp split: if_splits)
      then show ?thesis by (simp add: unat_next_cursor mod_add_left_eq)
    qed
    then have "audio_buffer (produce vs ?a1) ! ?p = audio_buffer ?a1 ! ?p"
      using lt by (intro produce_frame) blast+
    with 0 Cons.prems(1,2) show ?thesis by simp
  next
    case (Suc k)
    with Cons.prems(4) have "k < length vs" by simp
    from Cons.IH [OF lt len1 vs(1) this]
    have "audio_buffer (produce vs ?a1) ! ((Suc ?p mod BUFFER_SIZE + k) mod BUFFER_SIZE) = vs ! k"
      by (simp only: w1)
    then show ?thesis using Suc by (simp add: mod_add_left_eq)
  qed
qed

text \<open>
  C6. Round trip through the ring buffer. The consumer has read everything written so far
  (\<open>read_pos = write_pos\<close>); the producer then writes the \<open>N\<close> samples \<open>xs\<close> at
  \<open>write_pos\<close>, \<open>0 < N < BUFFER_SIZE\<close>, and the callback is asked for \<open>N\<close> samples. It
  returns exactly \<open>xs\<close>, in order, and \<open>read_pos\<close> advances by \<open>N\<close> modulo \<open>BUFFER_SIZE\<close>.
  When the read crosses the end of the buffer (\<open>read_pos + N > BUFFER_SIZE\<close>), \<open>xs\<close> is the
  end segment of the buffer from \<open>read_pos\<close> followed by the front segment of length
  \<open>read_pos + N - BUFFER_SIZE\<close>; otherwise it is the one range of length \<open>N\<close> at
  \<open>read_pos\<close>.
\<close>

theorem ring_round_trip:
  assumes "length (audio_buffer a) = BUFFER_SIZE"
    and "unat (write_pos a) < BUFFER_SIZE"
    and "read_pos a = write_pos a"
    and "0 < length xs" and "length xs < BUFFER_SIZE"
    and "len div 2 = length xs" and "length stream = length xs"
  shows "audio_callback stream len (produce xs a) =
           Some (xs, (produce xs a)\<lparr>read_pos :=
                        of_nat ((unat (read_pos a) + length xs) mod BUFFER_SIZE)\<rparr>)
       \<and> (if unat (read_pos a) + length xs > BUFFER_SIZE
          then drop (unat (read_pos a)) (audio_buffer (produce xs a))
               @ take (unat (read_pos a) + length xs - BUFFER_SIZE)
                   (audio_buffer (produce xs a))
          else take (length xs) (drop (unat (read_pos a)) (audio_buffer (produce xs a))))
         = xs"
proof -
  let ?a' = "produce xs a" and ?p = "unat (read_pos a)" and ?n = "length xs"
  have p: "?p < BUFFER_SIZE" using assms(2,3) by simp
  have len': "length (audio_buffer ?a') = BUFFER_SIZE"
    using assms(1) by (simp add: produce_length)
  have rp': "read_pos ?a' = read_pos a" by (rule produce_read_pos)
  have wp': "unat (write_pos ?a') = (?p + ?n) mod BUFFER_SIZE"
    using assms(2,3) by (simp add: produce_write_pos)
  then have wlt: "unat (write_pos ?a') < BUFFER_SIZE"
    by (simp add: buffer_size_pos)
  have av: "available_data ?a' = int ?n"
  proof (cases "?p + ?n < BUFFER_SIZE")
    case True
    then have "unat (write_pos ?a') = ?p + ?n" by (simp add: wp')
    then show ?thesis by (simp add: available_data_def rp')
  next
    case False
    with ring_index [OF p assms(5)] have w: "unat (write_pos ?a') = ?p + ?n - BUFFER_SIZE"
      by (simp add: wp')
    from False assms(5) have nle: "\<not> ?p \<le> ?p + ?n - BUFFER_SIZE" by linarith
    from False have "int (?p + ?n - BUFFER_SIZE) = int ?p + int ?n - int BUFFER_SIZE"
      by linarith
    then have "(int BUFFER_SIZE - int ?p) + int (?p + ?n - BUFFER_SIZE) = int ?n"
      by linarith
    with nle show ?thesis
      by (simp only: available_data_def rp' w if_False)
  qed
  have ring: "map (\<lambda>i. audio_buffer ?a' ! ((?p + i) mod BUFFER_SIZE)) [0..<?n] = xs"
  proof (rule nth_equalityI)
    show "length (map (\<lambda>i. audio_buffer ?a' ! ((?p + i) mod BUFFER_SIZE)) [0..<?n]) = length xs"
      by simp
  next
    fix i assume "i < length (map (\<lambda>i. audio_buffer ?a' ! ((?p + i) mod BUFFER_SIZE)) [0..<?n])"
    then have i: "i < ?n" by simp
    from produce_nth [OF assms(2) assms(1) _ i] assms(3,5) i
    show "map (\<lambda>i. audio_buffer ?a' ! ((?p + i) mod BUFFER_SIZE)) [0..<?n] ! i = xs ! i"
      by simp
  qed
  have call: "audio_callback stream len ?a' =
           Some (xs, ?a'\<lparr>read_pos := of_nat ((?p + ?n) mod BUFFER_SIZE)\<rparr>)"
    using ring_read [of ?a' len stream] len' p wlt av assms(6,7) ring
    by (simp add: rp')
  have split: "xs = (if ?p + ?n > BUFFER_SIZE
               then drop ?p (audio_buffer ?a') @ take (?p + ?n - BUFFER_SIZE) (audio_buffer ?a')
               else take ?n (drop ?p (audio_buffer ?a')))"
  proof (rule nth_equalityI)
    show "length xs = length (if ?p + ?n > BUFFER_SIZE
               then drop ?p (audio_buffer ?a') @ take (?p + ?n - BUFFER_SIZE) (audio_buffer ?a')
               else take ?n (drop ?p (audio_buffer ?a')))"
      using len' p assms(5) by simp
  next
    fix i assume i: "i < length xs"
    with assms(5) have "i < BUFFER_SIZE" by simp
    from ring_index [OF p this] i p len' assms(5)
      produce_nth [OF assms(2) assms(1) _ i] assms(3)
    show "xs ! i = (if ?p + ?n > BUFFER_SIZE
               then drop ?p (audio_buffer ?a') @ take (?p + ?n - BUFFER_SIZE) (audio_buffer ?a')
               else take ?n (drop ?p (audio_buffer ?a'))) ! i"
      by (auto simp add: nth_append add.commute split: if_splits)
  qed
  from call split [symmetric] show ?thesis by blast
qed

theorem ring_round_trip_witness:
  "length (audio_buffer (example_audio\<lparr>read_pos := 8190\<rparr>)) = BUFFER_SIZE
   \<and> unat (write_pos (example_audio\<lparr>read_pos := 8190\<rparr>)) < BUFFER_SIZE
   \<and> read_pos (example_audio\<lparr>read_pos := 8190\<rparr>) = write_pos (example_audio\<lparr>read_pos := 8190\<rparr>)
   \<and> map_option fst (audio_callback [0, 0, 0, 0] 8
         (produce [11, 12, 13, 14] (example_audio\<lparr>read_pos := 8190\<rparr>)))
       = Some [11, 12, 13, 14]
   \<and> map_option (read_pos \<circ> snd) (audio_callback [0, 0, 0, 0] 8
         (produce [11, 12, 13, 14] (example_audio\<lparr>read_pos := 8190\<rparr>)))
       = Some 2
   \<and> drop 8190 (audio_buffer (produce [11, 12, 13, 14] (example_audio\<lparr>read_pos := 8190\<rparr>)))
       @ take 2 (audio_buffer (produce [11, 12, 13, 14] (example_audio\<lparr>read_pos := 8190\<rparr>)))
       = [11, 12, 13, 14]"
proof -
  let ?a = "example_audio\<lparr>read_pos := 8190\<rparr>"
  have h: "length (audio_buffer ?a) = BUFFER_SIZE" "unat (write_pos ?a) < BUFFER_SIZE"
    "read_pos ?a = write_pos ?a"
    by (simp_all add: example_audio_def BUFFER_SIZE_def)
  have n: "0 < length [11, 12, 13, 14 :: s16]" "length [11, 12, 13, 14 :: s16] < BUFFER_SIZE"
    "8 div 2 = length [11, 12, 13, 14 :: s16]"
    "length [0, 0, 0, 0 :: s16] = length [11, 12, 13, 14 :: s16]"
    by (simp_all add: BUFFER_SIZE_def)
  have rp: "unat (read_pos ?a) = 8190" by (simp add: example_audio_def)
  show ?thesis
    using h ring_round_trip [OF h n]
    by (simp add: rp BUFFER_SIZE_def del: produce.simps)
qed

end
